theory Spec2Isabelle
  imports Complex_Main
begin

section \<open>The catalog and the application state\<close>

text \<open>
  \<^verbatim>\<open>load_app_data\<close> reads the table \<^verbatim>\<open>books\<close> into the DataFrame \<^verbatim>\<open>books_df\<close>, one row
  per book, and decodes the two JSON neighbour columns into Python lists. A row of that
  DataFrame is a record; the DataFrame is the list of its rows in table order (pandas keeps
  the order and allows two rows with the same \<^verbatim>\<open>book_id\<close>). The column
  \<^verbatim>\<open>similar_books_filtered\<close> is loaded but read by neither function below and is left out.
  \<^verbatim>\<open>average_rating\<close> is a float that is only carried along, never computed with.
\<close>

record book_row =
  book_id :: int
  title :: string
  average_rating :: real
  ratings_count :: int
  top_desc_neighbors_ids :: "int list"
  top_shelf_neighbors_ids :: "int list"

text \<open>
  A row of the DataFrame that \<^verbatim>\<open>fuse_neighbors_streamlit\<close> returns: the columns
  \<^verbatim>\<open>["title", "average_rating", "ratings_count", "book_id", "source"]\<close>. The column
  \<^verbatim>\<open>source\<close> comes from \<^verbatim>\<open>Series.map(source_map)\<close>, which gives NaN for a key the
  dictionary lacks: \<open>None\<close> here.
\<close>

record fused_row =
  rec_title :: string
  rec_average_rating :: real
  rec_ratings_count :: int
  rec_book_id :: int
  rec_source :: "string option"

text \<open>
  A tuple \<^verbatim>\<open>(book_id, title, ratings_count, average_rating)\<close> as the two SELECT statements
  of \<^verbatim>\<open>search_books_streamlit\<close> return it.
\<close>

type_synonym search_row = "int \<times> string \<times> int \<times> real"

text \<open>
  The calls to the display layer that matter below: \<^verbatim>\<open>st.warning\<close> and \<^verbatim>\<open>st.info\<close>,
  each with the message it formats.
\<close>

datatype st_text =
    Query_book_not_found int
  | No_books_found string
  | Please_enter_title

datatype st_call = St_warning st_text | St_info st_text

text \<open>
  What the functions can read or write: the module-level \<^verbatim>\<open>books_df\<close>, the three
  \<^verbatim>\<open>st.session_state\<close> entries, and the sequence of display calls made so far.
\<close>

record app_state =
  books_df :: "book_row list"
  search_results :: "search_row list"
  selected_book_id :: "int option"
  selected_book_title :: "string option"
  st_calls :: "st_call list"


section \<open>Neighbour fusion\<close>

subsection \<open>The two tier-fill loops\<close>

text \<open>
  Both loops of \<^verbatim>\<open>fuse_neighbors_streamlit\<close> have the same body, up to the list they
  walk and the tag they append:
  \<^verbatim>\<open>
    for bid in desc_list_ordered:
        if bid not in added_ids_set:
            fused_recommendations_ids.append(bid)
            fused_recommendations_sources.append("Source: Description")
            added_ids_set.add(bid)
            if len(fused_recommendations_ids) >= k:
                break
  \<close>
  The three mutated variables are passed and returned. The test against \<open>k\<close> is made
  after the append, as in the source, and \<open>k\<close> is a Python int.
\<close>

fun fill_tier ::
  "string \<Rightarrow> int \<Rightarrow> int list \<Rightarrow> int list \<Rightarrow> string list \<Rightarrow> int set
    \<Rightarrow> int list \<times> string list \<times> int set" where
  "fill_tier src k [] ids srcs added = (ids, srcs, added)"
| "fill_tier src k (bid # rest) ids srcs added =
     (if bid \<notin> added then
        (if int (length (ids @ [bid])) \<ge> k
         then (ids @ [bid], srcs @ [src], insert bid added)
         else fill_tier src k rest (ids @ [bid]) (srcs @ [src]) (insert bid added))
      else fill_tier src k rest ids srcs added)"

definition source_description :: string where
  "source_description = ''Source: Description''"

definition source_popular_shelves :: string where
  "source_popular_shelves = ''Source: Popular Shelves''"

text \<open>
  Tier 1 from the empty lists, then tier 2 under its guard
  \<^verbatim>\<open>if len(fused_recommendations_ids) < k\<close>.
\<close>

definition fuse_tiers :: "int \<Rightarrow> int list \<Rightarrow> int list \<Rightarrow> int list \<times> string list \<times> int set" where
  "fuse_tiers k desc_list_ordered shelf_list_ordered =
     (case fill_tier source_description k desc_list_ordered [] [] {} of
        (ids, srcs, added) \<Rightarrow>
          if int (length ids) < k
          then fill_tier source_popular_shelves k shelf_list_ordered ids srcs added
          else (ids, srcs, added))"

subsection \<open>Hydration\<close>

text \<open>
  A Python dict built by a comprehension: a later pair with the same key replaces the
  earlier one.
\<close>

definition dict_of :: "('k \<times> 'v) list \<Rightarrow> ('k \<rightharpoonup> 'v)" where
  "dict_of kvs = fold (\<lambda>(k, v) m. m(k \<mapsto> v)) kvs Map.empty"

text \<open>
  \<^verbatim>\<open>rank_map = {bid: i for i, bid in enumerate(fused_recommendations_ids)}\<close> and
  \<^verbatim>\<open>source_map = {ids[i]: sources[i] for i in range(len(ids))}\<close>.
\<close>

definition rank_map :: "int list \<Rightarrow> (int \<rightharpoonup> nat)" where
  "rank_map ids = dict_of (zip ids [0..<length ids])"

definition source_map :: "int list \<Rightarrow> string list \<Rightarrow> (int \<rightharpoonup> string)" where
  "source_map ids srcs = dict_of (map (\<lambda>i. (ids ! i, srcs ! i)) [0..<length ids])"

text \<open>
  The column \<^verbatim>\<open>_rank\<close> of a matched row. \<^verbatim>\<open>Series.map\<close> gives NaN for a missing key and
  \<^verbatim>\<open>sort_values\<close> puts NaN last: a row without a rank gets the key \<open>length ids\<close>, above
  every rank. (Every matched row passed \<^verbatim>\<open>isin\<close>, so the case does not arise.)
\<close>

definition rank_key :: "int list \<Rightarrow> book_row \<Rightarrow> nat" where
  "rank_key ids r = (case rank_map ids (book_id r) of Some i \<Rightarrow> i | None \<Rightarrow> length ids)"

text \<open>
  \<^verbatim>\<open>
    matched_df = books_df[books_df["book_id"].isin(fused_recommendations_ids)].copy()
    matched_df["_rank"] = matched_df["book_id"].map(rank_map)
    matched_df = matched_df.sort_values("_rank").reset_index(drop=True)
    matched_df["source"] = matched_df["book_id"].map(source_map)
    return matched_df[["title", "average_rating", "ratings_count", "book_id", "source"]]
  \<close>
  \<^verbatim>\<open>sort_values\<close> is pandas' default quicksort, which does not fix the order of rows with
  equal keys. Two matched rows have equal ranks only when they have the same \<^verbatim>\<open>book_id\<close>;
  the model sorts stably, and every statement below that speaks of the order of rows is
  made for a catalog whose ids are unique, where no two keys are equal.
\<close>

definition hydrate :: "book_row list \<Rightarrow> int list \<Rightarrow> string list \<Rightarrow> fused_row list" where
  "hydrate df ids srcs =
     map (\<lambda>r. \<lparr>rec_title = title r, rec_average_rating = average_rating r,
               rec_ratings_count = ratings_count r, rec_book_id = book_id r,
               rec_source = source_map ids srcs (book_id r)\<rparr>)
         (sort_key (rank_key ids) (filter (\<lambda>r. book_id r \<in> set ids) df))"

subsection \<open>\<^verbatim>\<open>fuse_neighbors_streamlit\<close>\<close>

text \<open>
  The function reads the global \<^verbatim>\<open>books_df\<close>, may call \<^verbatim>\<open>st.warning\<close>, and returns a
  DataFrame: the model takes the state and returns the rows of the DataFrame with the
  state after the call. \<^verbatim>\<open>pd.DataFrame()\<close> has no rows. \<^verbatim>\<open>iloc[0]\<close> is the first row with
  the queried id. The function has no \<^verbatim>\<open>raise\<close> and, on lists of ints, no operation that
  can fail.
\<close>

definition fuse_neighbors_streamlit :: "app_state \<Rightarrow> int \<Rightarrow> int \<Rightarrow> fused_row list \<times> app_state" where
  "fuse_neighbors_streamlit s query_book_id k =
     (case filter (\<lambda>r. book_id r = query_book_id) (books_df s) of
        [] \<Rightarrow> ([], s\<lparr>st_calls := st_calls s @ [St_warning (Query_book_not_found query_book_id)]\<rparr>)
      | query_book_row # _ \<Rightarrow>
          (case fuse_tiers k (top_desc_neighbors_ids query_book_row)
                             (top_shelf_neighbors_ids query_book_row) of
             (ids, srcs, added) \<Rightarrow>
               if ids = [] then ([], s)
               else (hydrate (books_df s) ids srcs, s)))"


section \<open>Title search\<close>

subsection \<open>The collaborators: SQLite and rapidfuzz\<close>

text \<open>
  \<^verbatim>\<open>cursor.execute\<close> raises \<^verbatim>\<open>sqlite3.OperationalError\<close> when SQLite rejects a statement,
  among them an FTS5 query string it cannot parse. Nothing in \<^verbatim>\<open>search_books_streamlit\<close>
  catches it.
\<close>

datatype py_error = OperationalError

text \<open>
  The full-text index \<^verbatim>\<open>books_fts\<close> is outside the repository. It is a parameter: given
  the string bound to \<^verbatim>\<open>MATCH ?\<close>, the engine either rejects it or decides, row by row
  of \<^verbatim>\<open>books\<close> (the join is on \<^verbatim>\<open>rowid\<close>), whether the row matches.
\<close>

type_synonym fts_engine = "string \<Rightarrow> py_error + (book_row \<Rightarrow> bool)"

text \<open>
  \<^verbatim>\<open>SELECT book_id, title, ratings_count, average_rating ... ORDER BY ratings_count DESC
  LIMIT ?\<close> over the rows that passed the WHERE clause. SQL leaves the order of rows with
  equal \<^verbatim>\<open>ratings_count\<close> open; the model keeps them in table order. \<^verbatim>\<open>top_n\<close> is the
  bound of a LIMIT and of \<^verbatim>\<open>process.extract\<close>; the one call site passes 5, and it is a
  natural number here.
\<close>

definition select_columns :: "book_row \<Rightarrow> search_row" where
  "select_columns r = (book_id r, title r, ratings_count r, average_rating r)"

definition order_by_ratings_count_desc_limit :: "nat \<Rightarrow> book_row list \<Rightarrow> search_row list" where
  "order_by_ratings_count_desc_limit top_n rows =
     take top_n (map select_columns (sort_key (\<lambda>r. - ratings_count r) rows))"

text \<open>
  Modelled from the spec: \<^verbatim>\<open>rapidfuzz.process.extract\<close>, a library function whose source is
  not part of the repository. The spec's Title Resolver computes the similarity of the query
  to every title and takes the top \<open>k\<close> by score; its design notes ask of the library only
  "score two strings' similarity" and "top-N matches of a query against a corpus". The
  scorer is a parameter. The call in the source passes no \<^verbatim>\<open>score_cutoff\<close>, so no choice
  is dropped for a low score. The result is a list of \<^verbatim>\<open>(choice, score, index)\<close>, best
  score first, equal scores in the order of the choices.
\<close>

definition process_extract ::
  "(string \<Rightarrow> string \<Rightarrow> real) \<Rightarrow> string \<Rightarrow> string list \<Rightarrow> nat \<Rightarrow> (string \<times> real \<times> nat) list" where
  "process_extract scorer query choices limit =
     take limit (sort_key (\<lambda>(c, sc, i). - sc)
                   (map (\<lambda>(i, c). (c, scorer query c, i)) (enumerate 0 choices)))"

subsection \<open>\<^verbatim>\<open>search_books_streamlit\<close>\<close>

text \<open>
  \<^verbatim>\<open>fts5_query_str = f'"{title_query_str}"'\<close>: a double quote (character 0x22) before and
  after the query, which is copied as it is.
\<close>

definition fts5_query_str :: "string \<Rightarrow> string" where
  "fts5_query_str title_query_str = CHR 0x22 # title_query_str @ [CHR 0x22]"

text \<open>
  The table \<^verbatim>\<open>books\<close> at \<^verbatim>\<open>conn_path\<close> is the list of its rows (it is the table
  \<^verbatim>\<open>books_df\<close> was read from); the parameter \<^verbatim>\<open>books_df_full\<close> is never read by the
  source and is left out. An exception of the first \<^verbatim>\<open>execute\<close> leaves the function:
  \<open>Inl\<close>. The copy loop into \<^verbatim>\<open>formatted_results\<close> is the identity.
\<close>

definition search_books_streamlit ::
  "fts_engine \<Rightarrow> (string \<Rightarrow> string \<Rightarrow> real) \<Rightarrow> book_row list \<Rightarrow> string \<Rightarrow> nat
    \<Rightarrow> py_error + search_row list" where
  "search_books_streamlit fts scorer books title_query_str top_n =
     (case fts (fts5_query_str title_query_str) of
        Inl e \<Rightarrow> Inl e
      | Inr matches \<Rightarrow>
          (let fts_results = order_by_ratings_count_desc_limit top_n (filter matches books);
               formatted_results = fts_results
           in if formatted_results \<noteq> [] then Inr formatted_results
              else
                (let all_titles = map title books;
                     fuzzy_matches = process_extract scorer title_query_str all_titles top_n;
                     matched_titles = map fst fuzzy_matches;
                     results = order_by_ratings_count_desc_limit top_n
                                 (filter (\<lambda>r. title r \<in> set matched_titles) books)
                 in Inr results)))"

text \<open>
  The handler of the button "Get Recommendations" in \<^verbatim>\<open>main\<close>:
  \<^verbatim>\<open>
    if search_title:
        matched_books_results = search_books_streamlit(search_title, ..., top_n=5)
        st.session_state.search_results = matched_books_results
        st.session_state.selected_book_id = None
        st.session_state.selected_book_title = None
        if not matched_books_results:
            st.warning(f" No books found matching '{search_title}'. ...")
    else:
        st.info("Please enter a book title to start.")
  \<close>
\<close>

definition get_recommendations_clicked ::
  "fts_engine \<Rightarrow> (string \<Rightarrow> string \<Rightarrow> real) \<Rightarrow> app_state \<Rightarrow> string \<Rightarrow> py_error + app_state" where
  "get_recommendations_clicked fts scorer s search_title =
     (if search_title \<noteq> [] then
        (case search_books_streamlit fts scorer (books_df s) search_title 5 of
           Inl e \<Rightarrow> Inl e
         | Inr matched_books_results \<Rightarrow>
             (let s1 = s\<lparr>search_results := matched_books_results,
                        selected_book_id := None, selected_book_title := None\<rparr>
              in if matched_books_results = []
                 then Inr (s1\<lparr>st_calls := st_calls s1 @ [St_warning (No_books_found search_title)]\<rparr>)
                 else Inr s1))
      else Inr (s\<lparr>st_calls := st_calls s @ [St_info Please_enter_title]\<rparr>))"


section \<open>Notions used to state the properties\<close>

text \<open>
  The first occurrences of a list, in order, skipping what is in \<open>seen\<close>: what a loop that
  appends every id it has not seen yet would collect if it never stopped early.
\<close>

fun first_occs :: "'a list \<Rightarrow> 'a set \<Rightarrow> 'a list" where
  "first_occs [] seen = []"
| "first_occs (x # xs) seen =
     (if x \<in> seen then first_occs xs seen else x # first_occs xs (insert x seen))"

text \<open>
  What each loop appends, in closed form. Tier 1 takes the first \<open>k\<close> first occurrences of
  the description list, and one of them when \<open>k \<le> 0\<close> (the loop tests \<open>k\<close> only after it
  has appended). Tier 2 runs only below \<open>k\<close> and fills up to \<open>k\<close> from the shelf list,
  skipping what tier 1 took.
\<close>

definition tier1_ids :: "int \<Rightarrow> int list \<Rightarrow> int list" where
  "tier1_ids k desc = take (max 1 (nat k)) (first_occs desc {})"

definition tier2_ids :: "int \<Rightarrow> int list \<Rightarrow> int list \<Rightarrow> int list" where
  "tier2_ids k desc shelf =
     (if int (length (tier1_ids k desc)) < k
      then take (nat k - length (tier1_ids k desc)) (first_occs shelf (set (tier1_ids k desc)))
      else [])"

text \<open>The ids of the catalog, and the list of ids the two loops leave for a query row.\<close>

definition catalog_ids :: "book_row list \<Rightarrow> int set" where
  "catalog_ids df = book_id ` set df"

definition fused_recommendations_ids :: "int \<Rightarrow> book_row \<Rightarrow> int list" where
  "fused_recommendations_ids k row =
     fst (fuse_tiers k (top_desc_neighbors_ids row) (top_shelf_neighbors_ids row))"

text \<open>
  The Title Resolver in the spec's words (section 4.1): the phrase search decides on the
  matches themselves, ordered by \<open>ratingsCount\<close> descending and truncated; only when there
  is no match, the \<open>k\<close> titles most similar to the query are selected, their records
  fetched, ordered by \<open>ratingsCount\<close> descending and truncated. \<open>phrase q r\<close> says that the
  title of \<open>r\<close> contains \<open>q\<close> as one phrase.
\<close>

definition top_similar_titles :: "(string \<Rightarrow> string \<Rightarrow> real) \<Rightarrow> string \<Rightarrow> string list \<Rightarrow> nat \<Rightarrow> string list" where
  "top_similar_titles scorer q titles k = take k (sort_key (\<lambda>t. - scorer q t) titles)"

definition resolve_spec ::
  "(string \<Rightarrow> book_row \<Rightarrow> bool) \<Rightarrow> (string \<Rightarrow> string \<Rightarrow> real) \<Rightarrow> book_row list \<Rightarrow> string \<Rightarrow> nat
    \<Rightarrow> search_row list" where
  "resolve_spec phrase scorer books q k =
     (if filter (phrase q) books \<noteq> []
      then order_by_ratings_count_desc_limit k (filter (phrase q) books)
      else order_by_ratings_count_desc_limit k
             (filter (\<lambda>r. title r \<in> set (top_similar_titles scorer q (map title books) k)) books))"

text \<open>
  The string literal of the FTS5 query syntax, as SQLite documents it: a string starts and
  ends with a double quote, and a double quote inside it is written twice.
  \<open>fts5_string_body\<close> reads the text after the opening quote and returns the string's
  content with what follows the closing quote, or \<open>None\<close> when the string never closes.
  A query string is one phrase exactly when it is one such literal and nothing else.
\<close>

fun fts5_string_body :: "string \<Rightarrow> (string \<times> string) option" where
  "fts5_string_body [] = None"
| "fts5_string_body [c] = (if c = CHR 0x22 then Some ([], []) else None)"
| "fts5_string_body (c # d # rest) =
     (if c = CHR 0x22 then
        (if d = CHR 0x22
         then map_option (\<lambda>(p, r). (CHR 0x22 # p, r)) (fts5_string_body rest)
         else Some ([], d # rest))
      else map_option (\<lambda>(p, r). (c # p, r)) (fts5_string_body (d # rest)))"

definition fts5_single_phrase :: "string \<Rightarrow> string option" where
  "fts5_single_phrase s =
     (case s of
        [] \<Rightarrow> None
      | c # cs \<Rightarrow>
          if c = CHR 0x22
          then (case fts5_string_body cs of Some (p, []) \<Rightarrow> Some p | _ \<Rightarrow> None)
          else None)"

text \<open>The sort key of hydration as a function of the id alone.\<close>

definition rank_of :: "int list \<Rightarrow> int \<Rightarrow> nat" where
  "rank_of ids b = (case rank_map ids b of Some i \<Rightarrow> i | None \<Rightarrow> length ids)"


text \<open>
  Shorthand for the concrete catalogs of the examples: a book row (every example row has
  the rating 4) and a state with the given catalog, an empty session and no display call.
\<close>

abbreviation book :: "int \<Rightarrow> string \<Rightarrow> int \<Rightarrow> int list \<Rightarrow> int list \<Rightarrow> book_row" where
  "book i t c d sh \<equiv>
     \<lparr>book_id = i, title = t, average_rating = 4, ratings_count = c,
      top_desc_neighbors_ids = d, top_shelf_neighbors_ids = sh\<rparr>"

abbreviation session :: "book_row list \<Rightarrow> app_state" where
  "session df \<equiv>
     \<lparr>books_df = df, search_results = [], selected_book_id = None,
      selected_book_title = None, st_calls = []\<rparr>"


section \<open>Properties of the fusion loops and of hydration\<close>

subsection \<open>First occurrences and the loop\<close>

lemma set_first_occs: "set (first_occs xs seen) = set xs - seen"
  by (induction xs arbitrary: seen) auto

lemma distinct_first_occs: "distinct (first_occs xs seen)"
  by (induction xs arbitrary: seen) (auto simp: set_first_occs)

lemma first_occs_append:
  "first_occs (xs @ ys) seen = first_occs xs seen @ first_occs ys (seen \<union> set xs)"
  by (induction xs arbitrary: seen) (auto simp: insert_absorb)

lemma length_first_occs: "length (first_occs xs seen) = card (set xs - seen)"
  using distinct_card[OF distinct_first_occs, of xs seen] by (simp add: set_first_occs)

lemma fill_tier_below:
  "int (length ids) < k \<Longrightarrow> added = set ids \<Longrightarrow> length srcs = length ids \<Longrightarrow>
   fill_tier src k xs ids srcs added =
     (let new = take (nat k - length ids) (first_occs xs added)
      in (ids @ new, srcs @ replicate (length new) src, added \<union> set new))"
proof (induction xs arbitrary: ids srcs added)
  case Nil
  then show ?case by simp
next
  case (Cons x xs)
  show ?case
  proof (cases "x \<in> added")
    case True
    then show ?thesis using Cons by simp
  next
    case False
    show ?thesis
    proof (cases "int (length (ids @ [x])) \<ge> k")
      case True
      with Cons.prems have "nat k - length ids = 1" by auto
      then show ?thesis using False True by (simp add: Let_def)
    next
      case ge: False
      then have lt: "int (length (ids @ [x])) < k" by simp
      have eq: "nat k - length ids = Suc (nat k - length (ids @ [x]))" using lt by auto
      have "fill_tier src k (x # xs) ids srcs added
            = fill_tier src k xs (ids @ [x]) (srcs @ [src]) (insert x added)"
        using False ge by simp
      also have "\<dots> = (let new = take (nat k - length (ids @ [x])) (first_occs xs (insert x added))
                in ((ids @ [x]) @ new, (srcs @ [src]) @ replicate (length new) src, insert x added \<union> set new))"
        by (rule Cons.IH[OF lt]) (use Cons.prems in auto)
      finally show ?thesis using False eq by (simp add: Let_def replicate_app_Cons_same)
    qed
  qed
qed

subsection \<open>The dictionaries and the sort\<close>

lemma fold_upd_map_of:
  "fold (\<lambda>(k, v) m. m(k \<mapsto> v)) kvs m = m ++ map_of (rev kvs)"
proof (induction kvs arbitrary: m)
  case Nil
  then show ?case by simp
next
  case (Cons kv kvs)
  obtain k v where kv: "kv = (k, v)" by (cases kv)
  have "fold (\<lambda>(k, v) m. m(k \<mapsto> v)) (kv # kvs) m
        = fold (\<lambda>(k, v) m. m(k \<mapsto> v)) kvs (m(k \<mapsto> v))"
    by (simp add: kv)
  also have "\<dots> = m(k \<mapsto> v) ++ map_of (rev kvs)"
    by (rule Cons.IH)
  also have "\<dots> = m ++ map_of (rev (kv # kvs))"
    by (rule ext) (simp add: kv map_add_def split: option.split)
  finally show ?case .
qed

lemma dict_of_distinct:
  assumes "distinct (map fst kvs)"
  shows "dict_of kvs = map_of kvs"
proof -
  have "map_of (rev kvs) = map_of kvs"
    using assms by (subst map_of_inject_set) (simp_all add: rev_map[symmetric])
  then show ?thesis by (simp add: dict_of_def fold_upd_map_of)
qed

lemma rank_map_nth:
  "distinct ids \<Longrightarrow> i < length ids \<Longrightarrow> rank_map ids (ids ! i) = Some i"
  using map_of_zip_nth[of ids "[0..<length ids]" i]
  by (simp add: rank_map_def dict_of_distinct)

lemma index_pairs_zip:
  "length srcs = length ids \<Longrightarrow> map (\<lambda>i. (ids ! i, srcs ! i)) [0..<length ids] = zip ids srcs"
  by (rule nth_equalityI) simp_all

lemma source_map_nth:
  "distinct ids \<Longrightarrow> length srcs = length ids \<Longrightarrow> i < length ids \<Longrightarrow>
   source_map ids srcs (ids ! i) = Some (srcs ! i)"
  using map_of_zip_nth[of ids srcs i]
  by (simp add: source_map_def index_pairs_zip dict_of_distinct)

lemma rank_key_nth:
  "distinct ids \<Longrightarrow> i < length ids \<Longrightarrow> book_id r = ids ! i \<Longrightarrow> rank_key ids r = i"
  by (simp add: rank_key_def rank_map_nth)

lemma map_rank_of: "distinct ids \<Longrightarrow> map (rank_of ids) ids = [0..<length ids]"
  by (rule nth_equalityI) (simp_all add: rank_of_def rank_map_nth)

lemma inj_on_rank_of: "distinct ids \<Longrightarrow> inj_on (rank_of ids) (set ids)"
  using map_rank_of[of ids] distinct_map[of "rank_of ids" ids] by simp

lemma sorted_ids_by_rank:
  assumes "distinct (map book_id df)" "distinct ids"
  shows "map book_id (sort_key (rank_key ids) (filter (\<lambda>r. book_id r \<in> set ids) df))
         = filter (\<lambda>b. b \<in> catalog_ids df) ids"
proof -
  let ?M = "filter (\<lambda>r. book_id r \<in> set ids) df"
  let ?S = "sort_key (rank_key ids) ?M"
  let ?F = "filter (\<lambda>b. b \<in> catalog_ids df) ids"
  let ?g = "rank_of ids"
  have key: "rank_key ids = ?g \<circ> book_id"
    by (rule ext) (simp add: rank_key_def rank_of_def)
  have setS: "set (map book_id ?S) = set ?F"
    by (auto simp: catalog_ids_def)
  have sub: "set (map book_id ?S) \<subseteq> set ids" by auto
  have dM: "distinct (map book_id ?M)"
    using assms(1) by (rule distinct_map_filter)
  have dS: "distinct (map book_id ?S)"
    using dM by (simp only: distinct_map distinct_sort set_sort)
  have inj: "inj_on ?g (set ids)" using assms(2) by (rule inj_on_rank_of)
  have s1: "sorted (map ?g (map book_id ?S))"
    using sorted_sort_key[of "rank_key ids" ?M] by (simp add: key)
  have d1: "distinct (map ?g (map book_id ?S))"
    using dS inj sub by (simp only: distinct_map[of ?g]) (auto intro: inj_on_subset)
  have "sorted (map ?g ids)" using assms(2) by (simp add: map_rank_of)
  then have s2: "sorted (map ?g ?F)" by (rule sorted_filter)
  have d2: "distinct (map ?g ?F)"
    using assms(2) inj by (simp only: distinct_map[of ?g]) (auto intro: inj_on_subset)
  have "set (map ?g (map book_id ?S)) = set (map ?g ?F)"
    using setS by (simp only: set_map)
  with s1 d1 s2 d2 have "map ?g (map book_id ?S) = map ?g ?F"
    by (rule sorted_distinct_set_unique)
  moreover have "inj_on ?g (set (map book_id ?S) \<union> set ?F)"
    using inj sub by (rule_tac inj_on_subset) auto
  ultimately show ?thesis by (simp only: inj_on_map_eq_map)
qed

lemma hydrate_ids:
  assumes "distinct (map book_id df)" "distinct ids"
  shows "map rec_book_id (hydrate df ids srcs) = filter (\<lambda>b. b \<in> catalog_ids df) ids"
  using sorted_ids_by_rank[OF assms] by (simp add: hydrate_def comp_def)

lemma hydrate_source: "x \<in> set (hydrate df ids srcs) \<Longrightarrow> rec_source x = source_map ids srcs (rec_book_id x)"
  by (auto simp: hydrate_def)

lemma hydrate_tagged:
  assumes "distinct (map book_id df)" "distinct ids" "length srcs = length ids"
  shows "map (\<lambda>x. (rec_book_id x, rec_source x)) (hydrate df ids srcs)
         = filter (\<lambda>(b, t). b \<in> catalog_ids df) (zip ids (map Some srcs))"
proof -
  have z: "map (\<lambda>b. (b, source_map ids srcs b)) ids = zip ids (map Some srcs)"
    using assms(2,3) by (intro nth_equalityI) (simp_all add: source_map_nth)
  have "map (\<lambda>x. (rec_book_id x, rec_source x)) (hydrate df ids srcs)
        = map (\<lambda>b. (b, source_map ids srcs b)) (map rec_book_id (hydrate df ids srcs))"
    by (simp add: hydrate_source comp_def)
  also have "\<dots> = map (\<lambda>b. (b, source_map ids srcs b)) (filter (\<lambda>b. b \<in> catalog_ids df) ids)"
    by (simp only: hydrate_ids[OF assms(1,2)])
  also have "\<dots> = filter (\<lambda>(b, t). b \<in> catalog_ids df) (map (\<lambda>b. (b, source_map ids srcs b)) ids)"
    by (simp add: filter_map comp_def)
  finally show ?thesis by (simp only: z)
qed

subsection \<open>The two tiers in closed form\<close>

lemma take1_first_occs: "take (Suc 0) (first_occs xs {}) = take (Suc 0) xs"
  by (cases xs) simp_all

lemma fill_tier1:
  "fill_tier src k desc [] [] {} =
     (tier1_ids k desc, replicate (length (tier1_ids k desc)) src, set (tier1_ids k desc))"
proof (cases "1 \<le> k")
  case True
  then have "max 1 (nat k) = nat k" by simp
  then show ?thesis using True by (simp add: fill_tier_below tier1_ids_def Let_def)
next
  case False
  then have "max 1 (nat k) = 1" by simp
  then show ?thesis using False
    by (cases desc) (simp_all add: tier1_ids_def)
qed

lemma fuse_tiers_closed:
  "fuse_tiers k desc shelf =
     (tier1_ids k desc @ tier2_ids k desc shelf,
      replicate (length (tier1_ids k desc)) source_description
        @ replicate (length (tier2_ids k desc shelf)) source_popular_shelves,
      set (tier1_ids k desc @ tier2_ids k desc shelf))"
proof (cases "int (length (tier1_ids k desc)) < k")
  case True
  have "fill_tier source_popular_shelves k shelf (tier1_ids k desc)
          (replicate (length (tier1_ids k desc)) source_description) (set (tier1_ids k desc))
        = (let new = take (nat k - length (tier1_ids k desc)) (first_occs shelf (set (tier1_ids k desc)))
           in (tier1_ids k desc @ new,
               replicate (length (tier1_ids k desc)) source_description
                 @ replicate (length new) source_popular_shelves,
               set (tier1_ids k desc) \<union> set new))"
    by (rule fill_tier_below) (use True in simp_all)
  then show ?thesis using True
    by (simp add: fuse_tiers_def fill_tier1 tier2_ids_def Let_def)
next
  case False
  then show ?thesis by (simp add: fuse_tiers_def fill_tier1 tier2_ids_def)
qed

lemma distinct_tiers: "distinct (tier1_ids k desc @ tier2_ids k desc shelf)"
proof -
  have "set (tier2_ids k desc shelf) \<inter> set (tier1_ids k desc) = {}"
    using set_take_subset[of "nat k - length (tier1_ids k desc)" "first_occs shelf (set (tier1_ids k desc))"]
    by (auto simp: tier2_ids_def set_first_occs)
  then show ?thesis
    by (auto simp: tier1_ids_def tier2_ids_def distinct_first_occs)
qed

lemma tiers_pos:
  assumes "1 \<le> k"
  shows "tier1_ids k desc @ tier2_ids k desc shelf = take (nat k) (first_occs (desc @ shelf) {})"
proof -
  let ?d = "first_occs desc {}"
  have m: "max 1 (nat k) = nat k" using assms by simp
  show ?thesis
  proof (cases "length ?d < nat k")
    case True
    then show ?thesis using assms
      by (simp add: tier1_ids_def tier2_ids_def m first_occs_append set_first_occs)
  next
    case False
    then show ?thesis using assms
      by (simp add: tier1_ids_def tier2_ids_def m first_occs_append)
  qed
qed

lemma length_tiers_pos:
  assumes "1 \<le> k"
  shows "length (tier1_ids k desc @ tier2_ids k desc shelf) = min (nat k) (card (set desc \<union> set shelf))"
  by (simp only: tiers_pos[OF assms] length_take length_first_occs) (simp add: min.commute)

lemma find_filter: "find P xs = Some x \<Longrightarrow> \<exists>rest. filter P xs = x # rest"
  by (induction xs) (auto split: if_splits)

lemma find_None_filter: "find P xs = None \<Longrightarrow> filter P xs = []"
  by (induction xs) (auto split: if_splits)

lemma fuse_found:
  assumes "find (\<lambda>r. book_id r = q) (books_df s) = Some row"
  shows "fuse_neighbors_streamlit s q k =
           (hydrate (books_df s) (fused_recommendations_ids k row)
              (replicate (length (tier1_ids k (top_desc_neighbors_ids row))) source_description
               @ replicate (length (tier2_ids k (top_desc_neighbors_ids row) (top_shelf_neighbors_ids row)))
                   source_popular_shelves), s)"
proof -
  obtain rest where f: "filter (\<lambda>r. book_id r = q) (books_df s) = row # rest"
    using find_filter[OF assms] by blast
  have e: "hydrate (books_df s) [] srcs = []" for srcs by (simp add: hydrate_def)
  show ?thesis
    by (simp add: fuse_neighbors_streamlit_def f fuse_tiers_closed fused_recommendations_ids_def e)
qed

subsection \<open>A call on a book of the catalog\<close>

lemmas fuse_eval =
  fuse_neighbors_streamlit_def fuse_tiers_def hydrate_def rank_key_def rank_map_def
  source_map_def dict_of_def source_description_def source_popular_shelves_def
  fused_recommendations_ids_def catalog_ids_def tier1_ids_def tier2_ids_def

lemma find_in_catalog:
  "find (\<lambda>r. book_id r = q) df = Some row \<Longrightarrow> book_id row = q \<and> q \<in> catalog_ids df"
  by (induction df) (auto simp: catalog_ids_def split: if_splits)

lemma fuse_found_ids:
  assumes "distinct (map book_id (books_df s))"
    and "find (\<lambda>r. book_id r = q) (books_df s) = Some row"
  shows "map rec_book_id (fst (fuse_neighbors_streamlit s q k))
         = filter (\<lambda>b. b \<in> catalog_ids (books_df s)) (fused_recommendations_ids k row)"
  using distinct_tiers[of k "top_desc_neighbors_ids row" "top_shelf_neighbors_ids row"]
  by (simp add: fuse_found[OF assms(2)] hydrate_ids[OF assms(1)]
        fused_recommendations_ids_def fuse_tiers_closed)

lemma zip_replicate_const: "zip xs (replicate (length xs) c) = map (\<lambda>x. (x, c)) xs"
  by (induction xs) simp_all

lemma fuse_found_tagged:
  assumes "distinct (map book_id (books_df s))"
    and "find (\<lambda>r. book_id r = q) (books_df s) = Some row"
  shows "map (\<lambda>x. (rec_book_id x, rec_source x)) (fst (fuse_neighbors_streamlit s q k))
         = filter (\<lambda>(b, t). b \<in> catalog_ids (books_df s))
             (map (\<lambda>b. (b, Some source_description)) (tier1_ids k (top_desc_neighbors_ids row))
              @ map (\<lambda>b. (b, Some source_popular_shelves))
                  (tier2_ids k (top_desc_neighbors_ids row) (top_shelf_neighbors_ids row)))"
proof -
  let ?t1 = "tier1_ids k (top_desc_neighbors_ids row)"
  let ?t2 = "tier2_ids k (top_desc_neighbors_ids row) (top_shelf_neighbors_ids row)"
  let ?srcs = "replicate (length ?t1) source_description @ replicate (length ?t2) source_popular_shelves"
  have ids: "fused_recommendations_ids k row = ?t1 @ ?t2"
    by (simp add: fused_recommendations_ids_def fuse_tiers_closed)
  have z: "zip (?t1 @ ?t2) (map Some ?srcs)
           = map (\<lambda>b. (b, Some source_description)) ?t1 @ map (\<lambda>b. (b, Some source_popular_shelves)) ?t2"
    by (simp add: zip_replicate_const)
  have "map (\<lambda>x. (rec_book_id x, rec_source x)) (hydrate (books_df s) (?t1 @ ?t2) ?srcs)
        = filter (\<lambda>(b, t). b \<in> catalog_ids (books_df s)) (zip (?t1 @ ?t2) (map Some ?srcs))"
    by (rule hydrate_tagged[OF assms(1) distinct_tiers]) simp
  then show ?thesis
    by (simp only: fuse_found[OF assms(2)] ids z fst_conv)
qed


section \<open>The claims about fusion\<close>

text \<open>
  C4. For an id that no row of the catalog has, \<^verbatim>\<open>fuse_neighbors_streamlit\<close> returns
  an empty DataFrame and makes one call \<^verbatim>\<open>st.warning\<close> that names the id (the
  book-not-found signal); it returns normally, whatever \<open>k\<close> is, and the catalog of the
  state after the call is the catalog before it.
\<close>

theorem fuse_unknown_book:
  assumes "query_book_id \<notin> catalog_ids (books_df s)"
  shows "fuse_neighbors_streamlit s query_book_id k =
           ([], s\<lparr>st_calls := st_calls s @ [St_warning (Query_book_not_found query_book_id)]\<rparr>)
         \<and> books_df (snd (fuse_neighbors_streamlit s query_book_id k)) = books_df s"
proof -
  have "filter (\<lambda>r. book_id r = query_book_id) (books_df s) = []"
    using assms by (auto simp: catalog_ids_def filter_empty_conv)
  then show ?thesis by (simp add: fuse_neighbors_streamlit_def)
qed

theorem fuse_unknown_book_witness:
  "7 \<notin> catalog_ids (books_df (session [book 1 ''Dune'' 10 [2] [], book 2 ''Emma'' 7 [] []]))
   \<and> fuse_neighbors_streamlit (session [book 1 ''Dune'' 10 [2] [], book 2 ''Emma'' 7 [] []]) 7 10
       = ([], \<lparr>books_df = [book 1 ''Dune'' 10 [2] [], book 2 ''Emma'' 7 [] []],
               search_results = [], selected_book_id = None, selected_book_title = None,
               st_calls = [St_warning (Query_book_not_found 7)]\<rparr>)"
  using fuse_unknown_book[of 7 "session [book 1 ''Dune'' 10 [2] [], book 2 ''Emma'' 7 [] []]" 10]
  by (simp add: catalog_ids_def)


text \<open>
  C1, at \<open>k = 0\<close>. The claim bounds the output by \<open>k\<close> for every \<open>k \<ge> 0\<close>. Tier 1
  tests \<^verbatim>\<open>len(fused_recommendations_ids) >= k\<close> only after an append, so with \<open>k = 0\<close>
  and a book whose description list is not empty it appends one id before it stops: the
  call returns one row where the claim allows none. (Tier 2 is guarded by
  \<^verbatim>\<open>len(...) < k\<close> before its loop and appends nothing at \<open>k = 0\<close>.)
\<close>

theorem fuse_k_zero_returns_one_row:
  "fst (fuse_neighbors_streamlit (session [book 1 ''Dune'' 10 [2] [], book 2 ''Emma'' 7 [] []]) 1 0)
     = [\<lparr>rec_title = ''Emma'', rec_average_rating = 4, rec_ratings_count = 7, rec_book_id = 2,
         rec_source = Some ''Source: Description''\<rparr>]
   \<and> \<not> length (fst (fuse_neighbors_streamlit
                       (session [book 1 ''Dune'' 10 [2] [], book 2 ''Emma'' 7 [] []]) 1 0)) \<le> 0"
  by (simp add: fuse_eval)


end
